theory Spec2Isabelle
  imports Main
begin

section \<open>Data model of \<^verbatim>\<open>pdm_venv/backends.py\<close>\<close>

text \<open>
  The module orchestrates external collaborators: the host's project object, \<^verbatim>\<open>pathlib\<close>,
  \<^verbatim>\<open>shutil\<close>, \<^verbatim>\<open>subprocess\<close> and the terminal UI. Every effect the module performs on them
  is made explicit: the filesystem is a component of the world that is passed through, the
  cache of the memoized property is a field of the backend instance, and every observable
  call (echo, mkdir, rmtree, process invocation, resolver query) is appended to a trace.
  Exceptions are values of a sum type; a failing call still returns the backend and the
  world it left behind. A call into a library returns: an \<^verbatim>\<open>OSError\<close> raised inside
  \<^verbatim>\<open>pathlib\<close>, \<^verbatim>\<open>shutil\<close> or \<^verbatim>\<open>subprocess\<close> is outside the model, and so is a child
  process that does not end.
\<close>

text \<open>\<^verbatim>\<open>pdm.models.python.PythonInfo\<close>: the fields the module reads.\<close>

record python_info =
  executable :: string
  "identifier" :: string
  major :: int
  minor :: int

text \<open>
  \<^verbatim>\<open>pdm.Project\<close>: the attributes the module reads. \<open>default_python\<close> is the
  attribute \<^verbatim>\<open>project.python\<close> (the name \<open>python\<close> is the hint of the backend below),
  \<open>config\<close> is the mapping \<^verbatim>\<open>project.config\<close>, and \<open>find_interpreters\<close> is the interpreter
  resolver; the generator it returns is the list of its candidates in order.
\<close>

record 'path project =
  root :: 'path
  default_python :: python_info
  find_interpreters :: "string \<Rightarrow> python_info list"
  config :: "string \<Rightarrow> string"

text \<open>The three classes of the module, the values of the \<^verbatim>\<open>BACKENDS\<close> registry.\<close>

datatype backend_class = VirtualenvBackend | VenvBackend | CondaBackend

definition BACKENDS :: "string \<rightharpoonup> backend_class" where
  "BACKENDS =
     [''virtualenv'' \<mapsto> VirtualenvBackend, ''venv'' \<mapsto> VenvBackend, ''conda'' \<mapsto> CondaBackend]"

text \<open>
  A \<^verbatim>\<open>Backend\<close> instance: the two attributes set by \<^verbatim>\<open>__init__\<close>, its class, and the
  slot in which \<^verbatim>\<open>cached_property\<close> stores \<^verbatim>\<open>_resolved_interpreter\<close> after the first
  successful computation (\<open>None\<close>: nothing stored yet).
\<close>

record 'path backend =
  cls :: backend_class
  project :: "'path project"
  python :: "string option"
  cached_interpreter :: "python_info option"

datatype called_process_error = CalledProcessError int "string list"

datatype exc_arg = Message string | Wrapped called_process_error

datatype error = VirtualenvCreateError exc_arg | PdmUsageError string

datatype verbosity = NORMAL | DETAIL

datatype 'path event =
    Echo string bool verbosity
  | Mkdir 'path
  | Rmtree 'path
  | Call "string list" int
  | FindInterpreters string

record ('path, 'fs) world =
  fs :: 'fs
  trace :: "'path event list"

text \<open>
  The library and operating-system calls the module makes, as parameters: nothing is
  assumed about them. \<open>Path\<close> is \<^verbatim>\<open>pathlib.Path(s)\<close>, \<open>joinpath p s\<close> is \<^verbatim>\<open>p / s\<close>,
  \<open>str\<close> is \<^verbatim>\<open>str(p)\<close>, \<open>mkdir\<close> is \<^verbatim>\<open>p.mkdir(exist_ok=True, parents=True)\<close>,
  \<open>call fs cmd\<close> is the exit status of the child process and the filesystem it leaves,
  \<open>repr_list\<close> is the formatting of a list inside an f-string, and \<open>get_venv_prefix\<close> is
  the function of that name imported from \<^verbatim>\<open>pdm_venv.utils\<close>.
\<close>

record ('path, 'fs) runtime =
  Path :: "string \<Rightarrow> 'path"
  joinpath :: "'path \<Rightarrow> string \<Rightarrow> 'path"
  str :: "'path \<Rightarrow> string"
  exists :: "'fs \<Rightarrow> 'path \<Rightarrow> bool"
  is_dir :: "'fs \<Rightarrow> 'path \<Rightarrow> bool"
  mkdir :: "'fs \<Rightarrow> 'path \<Rightarrow> 'fs"
  rmtree :: "'fs \<Rightarrow> 'path \<Rightarrow> 'fs"
  call :: "'fs \<Rightarrow> string list \<Rightarrow> int \<times> 'fs"
  sys_executable :: string
  repr_list :: "string list \<Rightarrow> string"
  get_venv_prefix :: "'path project \<Rightarrow> string"

section \<open>Operations\<close>

text \<open>Truthiness of an \<^verbatim>\<open>Optional[str]\<close>: \<^verbatim>\<open>None\<close> and the empty string are false.\<close>

definition truthy :: "string option \<Rightarrow> bool" where
  "truthy s = (case s of None \<Rightarrow> False | Some v \<Rightarrow> v \<noteq> [])"

definition echo :: "string \<Rightarrow> bool \<Rightarrow> verbosity \<Rightarrow> ('path, 'fs) world \<Rightarrow> ('path, 'fs) world" where
  "echo message err v w = w\<lparr>trace := trace w @ [Echo message err v]\<rparr>"

text \<open>Decimal formatting of an integer, as an f-string does it.\<close>

fun digits :: "nat \<Rightarrow> string" where
  "digits n =
     (if n < 10 then [char_of (48 + n)]
      else digits (n div 10) @ [char_of (48 + n mod 10)])"

declare digits.simps [simp del]

definition str_int :: "int \<Rightarrow> string" where
  "str_int i = (if i < 0 then ''-'' @ digits (nat (- i)) else digits (nat i))"

text \<open>
  \<^verbatim>\<open>Backend._resolved_interpreter\<close> under \<^verbatim>\<open>cached_property\<close>: a stored value is returned
  as it is; otherwise the body runs, and its value is stored only when it returns one.
\<close>

definition resolved_interpreter ::
  "'path backend \<Rightarrow> ('path, 'fs) world \<Rightarrow> (error + python_info) \<times> 'path backend \<times> ('path, 'fs) world" where
  "resolved_interpreter b w =
     (case cached_interpreter b of
        Some i \<Rightarrow> (Inr i, b, w)
      | None \<Rightarrow>
          (if \<not> truthy (python b) then
             (Inr (default_python (project b)),
              b\<lparr>cached_interpreter := Some (default_python (project b))\<rparr>, w)
           else
             (let h = the (python b);
                  w1 = w\<lparr>trace := trace w @ [FindInterpreters h]\<rparr>
              in case find_interpreters (project b) h of
                   [] \<Rightarrow>
                     (Inl (VirtualenvCreateError
                        (Message (''Can'' @ [CHR 0x27] @ ''t find python interpreter '' @ h))), b, w1)
                 | i # _ \<Rightarrow> (Inr i, b\<lparr>cached_interpreter := Some i\<rparr>, w1))))"

text \<open>\<^verbatim>\<open>Backend.ident\<close>.\<close>

definition Backend_ident ::
  "'path backend \<Rightarrow> ('path, 'fs) world \<Rightarrow> (error + string) \<times> 'path backend \<times> ('path, 'fs) world" where
  "Backend_ident b w =
     (case resolved_interpreter b w of
        (Inl e, b1, w1) \<Rightarrow> (Inl e, b1, w1)
      | (Inr i, b1, w1) \<Rightarrow> (Inr (identifier i), b1, w1))"

text \<open>\<^verbatim>\<open>CondaBackend.ident\<close>: the override.\<close>

definition CondaBackend_ident ::
  "'path backend \<Rightarrow> ('path, 'fs) world \<Rightarrow> (error + string) \<times> 'path backend \<times> ('path, 'fs) world" where
  "CondaBackend_ident b w =
     (if truthy (python b) then (Inr (the (python b)), b, w) else Backend_ident b w)"

text \<open>The property \<^verbatim>\<open>ident\<close> of an instance, dispatched on its class.\<close>

definition ident ::
  "'path backend \<Rightarrow> ('path, 'fs) world \<Rightarrow> (error + string) \<times> 'path backend \<times> ('path, 'fs) world" where
  "ident b w =
     (case cls b of
        CondaBackend \<Rightarrow> CondaBackend_ident b w
      | VirtualenvBackend \<Rightarrow> Backend_ident b w
      | VenvBackend \<Rightarrow> Backend_ident b w)"

text \<open>
  \<^verbatim>\<open>Backend.subprocess_call\<close>: \<^verbatim>\<open>subprocess.check_call\<close> raises
  \<^verbatim>\<open>CalledProcessError\<close> exactly when the exit status is not zero.
\<close>

definition subprocess_call ::
  "('path, 'fs) runtime \<Rightarrow> string list \<Rightarrow> ('path, 'fs) world \<Rightarrow> (error + unit) \<times> ('path, 'fs) world" where
  "subprocess_call rt cmd w =
     (let w1 = echo (''Run command: '' @ repr_list rt cmd) False DETAIL w;
          (rc, fs') = call rt (fs w1) cmd;
          w2 = w1\<lparr>fs := fs', trace := trace w1 @ [Call cmd rc]\<rparr>
      in if rc \<noteq> 0 then (Inl (VirtualenvCreateError (Wrapped (CalledProcessError rc cmd))), w2)
         else (Inr (), w2))"

text \<open>\<^verbatim>\<open>Backend._ensure_clean\<close>.\<close>

definition ensure_clean ::
  "('path, 'fs) runtime \<Rightarrow> 'path \<Rightarrow> bool \<Rightarrow> ('path, 'fs) world \<Rightarrow> (error + unit) \<times> ('path, 'fs) world" where
  "ensure_clean rt location force w =
     (if \<not> exists rt (fs w) location then (Inr (), w)
      else if \<not> force then
        (Inl (VirtualenvCreateError (Message (''The location '' @ str rt location @ '' is not empty''))), w)
      else
        (let w1 = echo (''Cleaning existing target directory '' @ str rt location) True NORMAL w
         in (Inr (), w1\<lparr>fs := rmtree rt (fs w1) location, trace := trace w1 @ [Rmtree location]\<rparr>)))"

text \<open>\<^verbatim>\<open>Backend.get_location\<close>.\<close>

definition get_location ::
  "('path, 'fs) runtime \<Rightarrow> 'path backend \<Rightarrow> string option \<Rightarrow> ('path, 'fs) world \<Rightarrow>
     (error + 'path) \<times> 'path backend \<times> ('path, 'fs) world" where
  "get_location rt b name w =
     (let venv_parent = Path rt (config (project b) ''venv.location'');
          w1 = (if \<not> is_dir rt (fs w) venv_parent
                then w\<lparr>fs := mkdir rt (fs w) venv_parent, trace := trace w @ [Mkdir venv_parent]\<rparr>
                else w);
          prefix = get_venv_prefix rt (project b)
      in if truthy name then (Inr (joinpath rt venv_parent (prefix @ the name)), b, w1)
         else (case ident b w1 of
                 (Inl e, b2, w2) \<Rightarrow> (Inl e, b2, w2)
               | (Inr i, b2, w2) \<Rightarrow> (Inr (joinpath rt venv_parent (prefix @ i)), b2, w2)))"

text \<open>\<^verbatim>\<open>VirtualenvBackend.perform_create\<close>.\<close>

definition VirtualenvBackend_perform_create ::
  "('path, 'fs) runtime \<Rightarrow> 'path backend \<Rightarrow> 'path \<Rightarrow> string list \<Rightarrow> ('path, 'fs) world \<Rightarrow>
     (error + unit) \<times> 'path backend \<times> ('path, 'fs) world" where
  "VirtualenvBackend_perform_create rt b location args w =
     (case resolved_interpreter b w of
        (Inl e, b1, w1) \<Rightarrow> (Inl e, b1, w1)
      | (Inr i, b1, w1) \<Rightarrow>
          (let cmd = [sys_executable rt, ''-m'', ''virtualenv'', str rt location]
                       @ [''-p'', executable i] @ args
           in case subprocess_call rt cmd w1 of (r, w2) \<Rightarrow> (r, b1, w2)))"

text \<open>\<^verbatim>\<open>VenvBackend.perform_create\<close>.\<close>

definition VenvBackend_perform_create ::
  "('path, 'fs) runtime \<Rightarrow> 'path backend \<Rightarrow> 'path \<Rightarrow> string list \<Rightarrow> ('path, 'fs) world \<Rightarrow>
     (error + unit) \<times> 'path backend \<times> ('path, 'fs) world" where
  "VenvBackend_perform_create rt b location args w =
     (case resolved_interpreter b w of
        (Inl e, b1, w1) \<Rightarrow> (Inl e, b1, w1)
      | (Inr i, b1, w1) \<Rightarrow>
          (let cmd = [executable i, ''-m'', ''venv'', str rt location] @ args
           in case subprocess_call rt cmd w1 of (r, w2) \<Rightarrow> (r, b1, w2)))"

text \<open>\<^verbatim>\<open>str.startswith\<close>.\<close>

definition startswith :: "string \<Rightarrow> string \<Rightarrow> bool" where
  "startswith s p = (take (length p) s = p)"

text \<open>\<^verbatim>\<open>CondaBackend.perform_create\<close>.\<close>

definition CondaBackend_perform_create ::
  "('path, 'fs) runtime \<Rightarrow> 'path backend \<Rightarrow> 'path \<Rightarrow> string list \<Rightarrow> ('path, 'fs) world \<Rightarrow>
     (error + unit) \<times> 'path backend \<times> ('path, 'fs) world" where
  "CondaBackend_perform_create rt b location args w =
     (case (if truthy (python b) then (Inr (the (python b)), b, w)
            else (case resolved_interpreter b w of
                    (Inl e, b1, w1) \<Rightarrow> (Inl e, b1, w1)
                  | (Inr p, b1, w1) \<Rightarrow>
                      (Inr (str_int (major p) @ ''.'' @ str_int (minor p)), b1, w1))) of
        (Inl e, b1, w1) \<Rightarrow> (Inl e, b1, w1)
      | (Inr python_ver, b1, w1) \<Rightarrow>
          if list_ex (\<lambda>arg. startswith arg ''python='') args then
            (Inl (PdmUsageError ''Cannot use python= in conda creation arguments''), b1, w1)
          else
            (let cmd = [''conda'', ''create'', ''--yes'', ''--prefix'', str rt location,
                        ''pip'', ''python='' @ python_ver] @ args
             in case subprocess_call rt cmd w1 of (r, w2) \<Rightarrow> (r, b1, w2)))"

text \<open>The abstract method \<^verbatim>\<open>perform_create\<close>, dispatched on the class of the instance.\<close>

definition perform_create ::
  "('path, 'fs) runtime \<Rightarrow> 'path backend \<Rightarrow> 'path \<Rightarrow> string list \<Rightarrow> ('path, 'fs) world \<Rightarrow>
     (error + unit) \<times> 'path backend \<times> ('path, 'fs) world" where
  "perform_create rt b location args w =
     (case cls b of
        VirtualenvBackend \<Rightarrow> VirtualenvBackend_perform_create rt b location args w
      | VenvBackend \<Rightarrow> VenvBackend_perform_create rt b location args w
      | CondaBackend \<Rightarrow> CondaBackend_perform_create rt b location args w)"

text \<open>The first statement of \<^verbatim>\<open>Backend.create\<close>: the \<^verbatim>\<open>if in_project\<close> that binds \<^verbatim>\<open>location\<close>.\<close>

definition target_location ::
  "('path, 'fs) runtime \<Rightarrow> 'path backend \<Rightarrow> string option \<Rightarrow> bool \<Rightarrow> ('path, 'fs) world \<Rightarrow>
     (error + 'path) \<times> 'path backend \<times> ('path, 'fs) world" where
  "target_location rt b name in_project w =
     (if in_project then (Inr (joinpath rt (root (project b)) ''.venv''), b, w)
      else get_location rt b name w)"

text \<open>\<^verbatim>\<open>Backend.create\<close>.\<close>

definition create ::
  "('path, 'fs) runtime \<Rightarrow> 'path backend \<Rightarrow> string option \<Rightarrow> string list \<Rightarrow> bool \<Rightarrow> bool \<Rightarrow>
     ('path, 'fs) world \<Rightarrow> (error + 'path) \<times> 'path backend \<times> ('path, 'fs) world" where
  "create rt b name args force in_project w =
     (case target_location rt b name in_project w of
        (Inl e, b1, w1) \<Rightarrow> (Inl e, b1, w1)
      | (Inr location, b1, w1) \<Rightarrow>
          (case ensure_clean rt location force w1 of
             (Inl e, w2) \<Rightarrow> (Inl e, b1, w2)
           | (Inr _, w2) \<Rightarrow>
               (case perform_create rt b1 location args w2 of
                  (Inl e, b3, w3) \<Rightarrow> (Inl e, b3, w3)
                | (Inr _, b3, w3) \<Rightarrow> (Inr location, b3, w3))))"

section \<open>Observing a run\<close>

text \<open>The events a call appended to the trace of the world it started in.\<close>

definition new_events :: "('path, 'fs) world \<Rightarrow> ('path, 'fs) world \<Rightarrow> 'path event list" where
  "new_events w w' = drop (length (trace w)) (trace w')"

fun is_call :: "'path event \<Rightarrow> bool" where
  "is_call (Call cmd rc) = True"
| "is_call e = False"

fun is_rmtree :: "'path event \<Rightarrow> bool" where
  "is_rmtree (Rmtree p) = True"
| "is_rmtree e = False"

fun is_mkdir :: "'path event \<Rightarrow> bool" where
  "is_mkdir (Mkdir p) = True"
| "is_mkdir e = False"

fun is_query :: "'path event \<Rightarrow> bool" where
  "is_query (FindInterpreters h) = True"
| "is_query e = False"

text \<open>How often the interpreter resolver was queried.\<close>

definition queries :: "'path event list \<Rightarrow> nat" where
  "queries t = length (filter is_query t)"

text \<open>
  An access to \<^verbatim>\<open>_resolved_interpreter\<close> on this instance queries the resolver: nothing is
  stored yet and the hint is not empty.
\<close>

definition needs_query :: "'path backend \<Rightarrow> bool" where
  "needs_query b = (cached_interpreter b = None \<and> truthy (python b))"

text \<open>
  A caller that uses one instance several times: each access reads \<^verbatim>\<open>ident\<close> or calls
  \<^verbatim>\<open>create\<close>, catches whatever is raised, and goes on with the same instance.
\<close>

datatype access = Ident | Create "string option" "string list" bool bool

fun access_step ::
  "('path, 'fs) runtime \<Rightarrow> access \<Rightarrow> 'path backend \<times> ('path, 'fs) world \<Rightarrow>
     'path backend \<times> ('path, 'fs) world" where
  "access_step rt Ident (b, w) = snd (ident b w)"
| "access_step rt (Create name args force in_project) (b, w) =
     snd (create rt b name args force in_project w)"

fun run_accesses ::
  "('path, 'fs) runtime \<Rightarrow> access list \<Rightarrow> 'path backend \<times> ('path, 'fs) world \<Rightarrow>
     'path backend \<times> ('path, 'fs) world" where
  "run_accesses rt [] s = s"
| "run_accesses rt (a # as) s = run_accesses rt as (access_step rt a s)"

section \<open>A concrete environment\<close>

text \<open>
  A small instance of the parameters, on which the operations can be run: paths are
  strings joined with a slash, the filesystem is the list of the directories that exist,
  and a child process ends with the given exit status and leaves the filesystem as it is.
\<close>

definition demo_rt :: "int \<Rightarrow> (string, string list) runtime" where
  "demo_rt rc =
     \<lparr>Path = (\<lambda>s. s),
      joinpath = (\<lambda>p s. p @ ''/'' @ s),
      str = (\<lambda>p. p),
      exists = (\<lambda>fs p. List.member fs p),
      is_dir = (\<lambda>fs p. List.member fs p),
      mkdir = (\<lambda>fs p. p # fs),
      rmtree = (\<lambda>fs p. filter (\<lambda>q. q \<noteq> p \<and> \<not> startswith q (p @ ''/'')) fs),
      call = (\<lambda>fs cmd. (rc, fs)),
      sys_executable = ''/usr/bin/python3'',
      repr_list = (\<lambda>cmd. concat (map (\<lambda>s. '' '' @ s) cmd)),
      get_venv_prefix = (\<lambda>p. ''proj-'')\<rparr>"

definition py39 :: python_info where
  "py39 = \<lparr>executable = ''/usr/bin/python3.9'', identifier = ''cpython-3.9'', major = 3, minor = 9\<rparr>"

definition py311 :: python_info where
  "py311 = \<lparr>executable = ''/opt/py/bin/python3.11'', identifier = ''cpython-3.11'', major = 3, minor = 11\<rparr>"

definition demo_project :: "string project" where
  "demo_project =
     \<lparr>root = ''/work/proj'',
      default_python = py39,
      find_interpreters = (\<lambda>h. if h = ''3.9'' then [py39] else if h = ''3.11'' then [py311] else []),
      config = (\<lambda>k. if k = ''venv.location'' then ''/envs'' else [])\<rparr>"

definition demo_backend :: "backend_class \<Rightarrow> string option \<Rightarrow> string backend" where
  "demo_backend c h = \<lparr>cls = c, project = demo_project, python = h, cached_interpreter = None\<rparr>"

definition demo_world :: "string list \<Rightarrow> (string, string list) world" where
  "demo_world dirs = \<lparr>fs = dirs, trace = []\<rparr>"

section \<open>Basic facts\<close>

lemmas demo_defs = demo_rt_def demo_backend_def demo_project_def demo_world_def py39_def py311_def

lemmas run_defs = create_def target_location_def get_location_def ensure_clean_def perform_create_def
  VenvBackend_perform_create_def VirtualenvBackend_perform_create_def CondaBackend_perform_create_def
  subprocess_call_def echo_def ident_def Backend_ident_def CondaBackend_ident_def
  resolved_interpreter_def truthy_def startswith_def new_events_def Let_def


lemma new_events_append: "trace w' = trace w @ evs \<Longrightarrow> new_events w w' = evs"
  by (simp add: new_events_def)

lemma queries_append: "queries (xs @ ys) = queries xs + queries ys"
  by (simp add: queries_def)

lemma query_events_harmless:
  "list_all is_query evs \<Longrightarrow>
     \<not> list_ex is_rmtree evs \<and> \<not> list_ex is_call evs \<and> \<not> list_ex is_mkdir evs"
  by (induction evs) (auto elim: is_query.elims)

lemma resolved_interpreter_fst:
  "fst (resolved_interpreter b w') = fst (resolved_interpreter b w)"
  by (simp add: resolved_interpreter_def Let_def split: option.splits list.splits)

lemma resolved_interpreter_effect:
  assumes "resolved_interpreter b w = (r, b1, w1)"
  shows "cls b1 = cls b \<and> project b1 = project b \<and> python b1 = python b \<and> fs w1 = fs w \<and>
         (\<exists>evs. trace w1 = trace w @ evs \<and> list_all is_query evs \<and> length evs \<le> 1)"
  using assms
  by (auto simp: resolved_interpreter_def Let_def split: option.splits if_splits list.splits)

lemma resolved_interpreter_again:
  assumes "resolved_interpreter b w = (r, b1, w1)"
  shows "fst (resolved_interpreter b1 w') = r"
  using assms
  by (auto simp: resolved_interpreter_def Let_def split: option.splits if_splits list.splits)

lemma ident_cases:
  assumes "ident b w = (r, b1, w1)"
  shows "(\<exists>r'. resolved_interpreter b w = (r', b1, w1)) \<or> (b1 = b \<and> w1 = w)"
  using assms
  by (auto simp: ident_def Backend_ident_def CondaBackend_ident_def
        split: backend_class.splits if_splits prod.splits sum.splits)

lemma ident_effect:
  assumes "ident b w = (r, b1, w1)"
  shows "cls b1 = cls b \<and> project b1 = project b \<and> python b1 = python b \<and> fs w1 = fs w \<and>
         (\<exists>evs. trace w1 = trace w @ evs \<and> list_all is_query evs \<and> length evs \<le> 1)"
  using ident_cases [OF assms] resolved_interpreter_effect [where b = b and w = w and ?b1.0 = b1 and ?w1.0 = w1]
  by auto

lemma ident_resolution:
  assumes "ident b w = (r, b1, w1)"
  shows "fst (resolved_interpreter b1 w') = fst (resolved_interpreter b w')"
  using ident_cases [OF assms]
    resolved_interpreter_again [where b = b and w = w and ?b1.0 = b1 and ?w1.0 = w1 and w' = w']
    resolved_interpreter_fst [of b w' w]
  by auto


lemma get_location_cases:
  assumes "get_location rt b name w = (r, b1, w1)"
  shows "(\<exists>r'. ident b (if \<not> is_dir rt (fs w) (Path rt (config (project b) ''venv.location''))
                      then w\<lparr>fs := mkdir rt (fs w) (Path rt (config (project b) ''venv.location'')),
                             trace := trace w @ [Mkdir (Path rt (config (project b) ''venv.location''))]\<rparr>
                      else w) = (r', b1, w1))
         \<or> (b1 = b \<and> w1 = (if \<not> is_dir rt (fs w) (Path rt (config (project b) ''venv.location''))
                      then w\<lparr>fs := mkdir rt (fs w) (Path rt (config (project b) ''venv.location'')),
                             trace := trace w @ [Mkdir (Path rt (config (project b) ''venv.location''))]\<rparr>
                      else w))"
  using assms by (auto simp: get_location_def Let_def split: prod.splits sum.splits if_splits)

lemma get_location_effect:
  assumes "get_location rt b name w = (r, b1, w1)"
  shows "cls b1 = cls b \<and> project b1 = project b \<and> python b1 = python b \<and>
     fs w1 = (if is_dir rt (fs w) (Path rt (config (project b) ''venv.location'')) then fs w
                  else mkdir rt (fs w) (Path rt (config (project b) ''venv.location''))) \<and>
     (\<exists>evs. trace w1 = trace w @
            (if is_dir rt (fs w) (Path rt (config (project b) ''venv.location'')) then []
             else [Mkdir (Path rt (config (project b) ''venv.location''))]) @ evs
           \<and> list_all is_query evs \<and> length evs \<le> 1)"
proof -
  let ?p = "Path rt (config (project b) ''venv.location'')"
  let ?m = "if is_dir rt (fs w) ?p then [] else [Mkdir ?p]"
  let ?w = "if \<not> is_dir rt (fs w) ?p
            then w\<lparr>fs := mkdir rt (fs w) ?p, trace := trace w @ [Mkdir ?p]\<rparr> else w"
  have w: "fs ?w = (if is_dir rt (fs w) ?p then fs w else mkdir rt (fs w) ?p)"
    "trace ?w = trace w @ ?m"
    by simp_all
  from get_location_cases [OF assms]
  consider r' where "ident b ?w = (r', b1, w1)" | "b1 = b" "w1 = ?w"
    by blast
  then show ?thesis
  proof cases
    case 1
    from ident_effect [OF 1] obtain evs where
      "cls b1 = cls b" "project b1 = project b" "python b1 = python b" "fs w1 = fs ?w"
      "trace w1 = trace ?w @ evs" "list_all is_query evs" "length evs \<le> 1"
      by blast
    then show ?thesis
      unfolding w by (intro conjI exI [of _ evs]) simp_all
  next
    case 2
    then show ?thesis
      unfolding w by (intro conjI exI [of _ "[]"]) simp_all
  qed
qed

lemma get_location_resolution:
  assumes "get_location rt b name w = (r, b1, w1)"
  shows "fst (resolved_interpreter b1 w') = fst (resolved_interpreter b w')"
  using get_location_cases [OF assms]
    ident_resolution [where b = b and ?b1.0 = b1 and ?w1.0 = w1 and w' = w']
  by (auto split: if_splits)

lemma target_location_effect:
  assumes "target_location rt b name in_project w = (r, b1, w1)"
  shows "cls b1 = cls b \<and> project b1 = project b \<and> python b1 = python b \<and>
     fs w1 = (if in_project \<or> is_dir rt (fs w) (Path rt (config (project b) ''venv.location'')) then fs w
                  else mkdir rt (fs w) (Path rt (config (project b) ''venv.location''))) \<and>
     (\<exists>evs. trace w1 = trace w @
            (if in_project \<or> is_dir rt (fs w) (Path rt (config (project b) ''venv.location'')) then []
             else [Mkdir (Path rt (config (project b) ''venv.location''))]) @ evs
           \<and> list_all is_query evs \<and> length evs \<le> 1)"
  using assms get_location_effect [of rt b name w r b1 w1]
  by (auto simp: target_location_def split: if_splits)

lemma target_location_resolution:
  assumes "target_location rt b name in_project w = (r, b1, w1)"
  shows "fst (resolved_interpreter b1 w') = fst (resolved_interpreter b w')"
  using assms get_location_resolution [of rt b name w r b1 w1 w']
  by (auto simp: target_location_def split: if_splits)

lemma subprocess_call_effect:
  assumes "subprocess_call rt cmd w = (r, w1)"
  shows "trace w1 = trace w @ [Echo (''Run command: '' @ repr_list rt cmd) False DETAIL,
                               Call cmd (fst (call rt (fs w) cmd))]
     \<and> fs w1 = snd (call rt (fs w) cmd)
     \<and> r = (if fst (call rt (fs w) cmd) \<noteq> 0
            then Inl (VirtualenvCreateError (Wrapped (CalledProcessError (fst (call rt (fs w) cmd)) cmd)))
            else Inr ())"
  using assms by (auto simp: subprocess_call_def echo_def Let_def split: prod.splits if_splits)

lemma perform_create_cases:
  assumes "perform_create rt b location args w = (r, b1, w1)"
  shows "\<exists>x w0. ((b1 = b \<and> w0 = w) \<or> resolved_interpreter b w = (x, b1, w0)) \<and>
           ((\<exists>e. r = Inl e \<and> w1 = w0) \<or> (\<exists>cmd. subprocess_call rt cmd w0 = (r, w1)))"
  using assms
  by (auto simp: perform_create_def VirtualenvBackend_perform_create_def
      VenvBackend_perform_create_def CondaBackend_perform_create_def Let_def
      split: backend_class.splits prod.splits sum.splits if_splits)

lemma perform_create_effect:
  assumes "perform_create rt b location args w = (r, b1, w1)"
  shows "cls b1 = cls b \<and> project b1 = project b \<and> python b1 = python b \<and>
    (\<exists>q. list_all is_query q \<and> length q \<le> 1 \<and>
       ((trace w1 = trace w @ q \<and> fs w1 = fs w \<and> (\<exists>e. r = Inl e)) \<or>
        (\<exists>cmd. trace w1 = trace w @ q @ [Echo (''Run command: '' @ repr_list rt cmd) False DETAIL,
                                          Call cmd (fst (call rt (fs w) cmd))]
           \<and> fs w1 = snd (call rt (fs w) cmd)
           \<and> r = (if fst (call rt (fs w) cmd) \<noteq> 0
                  then Inl (VirtualenvCreateError (Wrapped (CalledProcessError (fst (call rt (fs w) cmd)) cmd)))
                  else Inr ()))))"
proof -
  from perform_create_cases [OF assms] obtain x w0 where
    res: "(b1 = b \<and> w0 = w) \<or> resolved_interpreter b w = (x, b1, w0)" and
    run: "(\<exists>e. r = Inl e \<and> w1 = w0) \<or> (\<exists>cmd. subprocess_call rt cmd w0 = (r, w1))"
    by blast
  from res have pre: "cls b1 = cls b \<and> project b1 = project b \<and> python b1 = python b \<and> fs w0 = fs w \<and>
         (\<exists>evs. trace w0 = trace w @ evs \<and> list_all is_query evs \<and> length evs \<le> 1)"
    using resolved_interpreter_effect [of b w x b1 w0] by auto
  then obtain q where q: "trace w0 = trace w @ q" "list_all is_query q" "length q \<le> 1"
    by blast
  from run show ?thesis
  proof
    assume "\<exists>e. r = Inl e \<and> w1 = w0"
    with pre q show ?thesis by auto
  next
    assume "\<exists>cmd. subprocess_call rt cmd w0 = (r, w1)"
    then obtain cmd where "subprocess_call rt cmd w0 = (r, w1)" ..
    from subprocess_call_effect [OF this] pre q
    have "trace w1 = trace w @ q @ [Echo (''Run command: '' @ repr_list rt cmd) False DETAIL,
                                          Call cmd (fst (call rt (fs w) cmd))]
           \<and> fs w1 = snd (call rt (fs w) cmd)
           \<and> r = (if fst (call rt (fs w) cmd) \<noteq> 0
                  then Inl (VirtualenvCreateError (Wrapped (CalledProcessError (fst (call rt (fs w) cmd)) cmd)))
                  else Inr ())"
      by simp
    with pre q show ?thesis by blast
  qed
qed

lemma create_cases [consumes 1, case_names no_location refused cleaned fresh]:
  assumes "create rt b name args force in_project w = (r, b', w')"
  obtains
    (no_location) e where
      "target_location rt b name in_project w = (Inl e, b', w')" and "r = Inl e"
  | (refused) loc b1 w1 where
      "target_location rt b name in_project w = (Inr loc, b1, w1)" and "exists rt (fs w1) loc"
      and "\<not> force" and "b' = b1" and "w' = w1"
      and "r = Inl (VirtualenvCreateError (Message (''The location '' @ str rt loc @ '' is not empty'')))"
  | (cleaned) loc b1 w1 pr where
      "target_location rt b name in_project w = (Inr loc, b1, w1)" and "exists rt (fs w1) loc"
      and "force"
      and "perform_create rt b1 loc args
             (w1\<lparr>fs := rmtree rt (fs w1) loc,
                 trace := trace w1 @ [Echo (''Cleaning existing target directory '' @ str rt loc) True NORMAL,
                                      Rmtree loc]\<rparr>) = (pr, b', w')"
      and "r = (case pr of Inl e \<Rightarrow> Inl e | Inr u \<Rightarrow> Inr loc)"
  | (fresh) loc b1 w1 pr where
      "target_location rt b name in_project w = (Inr loc, b1, w1)" and "\<not> exists rt (fs w1) loc"
      and "perform_create rt b1 loc args w1 = (pr, b', w')"
      and "r = (case pr of Inl e \<Rightarrow> Inl e | Inr u \<Rightarrow> Inr loc)"
proof -
  obtain tr b1 w1 where tl: "target_location rt b name in_project w = (tr, b1, w1)"
    by (metis prod_cases3)
  show ?thesis
  proof (cases tr)
    case (Inl e)
    with tl assms have "target_location rt b name in_project w = (Inl e, b', w')" "r = Inl e"
      by (simp_all add: create_def)
    then show ?thesis by (rule no_location)
  next
    case (Inr loc)
    note tl' = tl [unfolded Inr]
    show ?thesis
    proof (cases "exists rt (fs w1) loc")
      case False
      obtain pr b3 w3 where pc: "perform_create rt b1 loc args w1 = (pr, b3, w3)"
        by (metis prod_cases3)
      with tl' False assms have "b' = b3" "w' = w3" "r = (case pr of Inl e \<Rightarrow> Inl e | Inr u \<Rightarrow> Inr loc)"
        by (auto simp: create_def ensure_clean_def split: sum.splits)
      with pc tl' False show ?thesis by (auto intro: fresh)
    next
      case True
      show ?thesis
      proof (cases force)
        case False
        with tl' True assms show ?thesis
          by (auto simp: create_def ensure_clean_def intro: refused)
      next
        case force: True
        let ?w2 = "w1\<lparr>fs := rmtree rt (fs w1) loc,
                 trace := trace w1 @ [Echo (''Cleaning existing target directory '' @ str rt loc) True NORMAL,
                                      Rmtree loc]\<rparr>"
        obtain pr b3 w3 where pc: "perform_create rt b1 loc args ?w2 = (pr, b3, w3)"
          by (metis prod_cases3)
        with tl' True force assms
        have "b' = b3" "w' = w3" "r = (case pr of Inl e \<Rightarrow> Inl e | Inr u \<Rightarrow> Inr loc)"
          by (auto simp: create_def ensure_clean_def echo_def Let_def split: sum.splits)
        with pc tl' True force show ?thesis by (auto intro: cleaned)
      qed
    qed
  qed
qed

lemma query_events_set:
  "list_all is_query evs \<Longrightarrow> e \<in> set evs \<Longrightarrow> is_query e"
  by (simp add: list_all_iff)




lemma perform_create_call:
  assumes pc: "perform_create rt b1 loc args w2 = (pr, b', w')"
    and call: "Call cmd rc \<in> set (new_events w2 w')"
  shows "(\<exists>q. new_events w2 w' = q @ [Echo (''Run command: '' @ repr_list rt cmd) False DETAIL, Call cmd rc]
              \<and> list_all is_query q)
     \<and> rc = fst (call rt (fs w2) cmd) \<and> fs w' = snd (call rt (fs w2) cmd)
     \<and> pr = (if rc \<noteq> 0 then Inl (VirtualenvCreateError (Wrapped (CalledProcessError rc cmd))) else Inr ())"
proof -
  from perform_create_effect [OF pc] obtain q where q: "list_all is_query q" and
    d: "(trace w' = trace w2 @ q \<and> fs w' = fs w2 \<and> (\<exists>e. pr = Inl e)) \<or>
        (\<exists>cmd. trace w' = trace w2 @ q @ [Echo (''Run command: '' @ repr_list rt cmd) False DETAIL,
                                          Call cmd (fst (call rt (fs w2) cmd))]
           \<and> fs w' = snd (call rt (fs w2) cmd)
           \<and> pr = (if fst (call rt (fs w2) cmd) \<noteq> 0
                  then Inl (VirtualenvCreateError (Wrapped (CalledProcessError (fst (call rt (fs w2) cmd)) cmd)))
                  else Inr ()))"
    by blast
  from d show ?thesis
  proof
    assume a: "trace w' = trace w2 @ q \<and> fs w' = fs w2 \<and> (\<exists>e. pr = Inl e)"
    then have "new_events w2 w' = q" by (simp add: new_events_append)
    with call query_events_set [OF q, of "Call cmd rc"] show ?thesis by simp
  next
    assume "\<exists>cmd. trace w' = trace w2 @ q @ [Echo (''Run command: '' @ repr_list rt cmd) False DETAIL,
                                          Call cmd (fst (call rt (fs w2) cmd))]
           \<and> fs w' = snd (call rt (fs w2) cmd)
           \<and> pr = (if fst (call rt (fs w2) cmd) \<noteq> 0
                  then Inl (VirtualenvCreateError (Wrapped (CalledProcessError (fst (call rt (fs w2) cmd)) cmd)))
                  else Inr ())"
    then obtain cmd' where
      t: "trace w' = trace w2 @ q @ [Echo (''Run command: '' @ repr_list rt cmd') False DETAIL,
                                          Call cmd' (fst (call rt (fs w2) cmd'))]"
      and f: "fs w' = snd (call rt (fs w2) cmd')"
      and p: "pr = (if fst (call rt (fs w2) cmd') \<noteq> 0
                  then Inl (VirtualenvCreateError (Wrapped (CalledProcessError (fst (call rt (fs w2) cmd')) cmd')))
                  else Inr ())"
      by blast
    have n: "new_events w2 w' = q @ [Echo (''Run command: '' @ repr_list rt cmd') False DETAIL,
                                          Call cmd' (fst (call rt (fs w2) cmd'))]"
      using t by (rule new_events_append)
    with call query_events_set [OF q, of "Call cmd rc"] have "cmd' = cmd" "fst (call rt (fs w2) cmd') = rc"
      by auto
    with n f p q show ?thesis by auto
  qed
qed

lemma perform_create_extends:
  assumes "perform_create rt b1 loc args w2 = (pr, b3, w3)"
  shows "\<exists>post. trace w3 = trace w2 @ post \<and> (\<forall>l. Rmtree l \<notin> set post)"
proof -
  from perform_create_effect [OF assms] obtain q where q: "list_all is_query q" and
      d: "trace w3 = trace w2 @ q \<or>
        (\<exists>cmd. trace w3 = trace w2 @ q @ [Echo (''Run command: '' @ repr_list rt cmd) False DETAIL,
                                          Call cmd (fst (call rt (fs w2) cmd))])"
    by blast
  have r: "Rmtree l \<notin> set q" for l
    using query_events_set [OF q, of "Rmtree l"] by auto
  from d show ?thesis
  proof
    assume "trace w3 = trace w2 @ q"
    with r show ?thesis by blast
  next
    assume "\<exists>cmd. trace w3 = trace w2 @ q @ [Echo (''Run command: '' @ repr_list rt cmd) False DETAIL,
                                          Call cmd (fst (call rt (fs w2) cmd))]"
    then obtain cmd where t: "trace w3 = trace w2 @ q @ [Echo (''Run command: '' @ repr_list rt cmd) False DETAIL,
                                          Call cmd (fst (call rt (fs w2) cmd))]" ..
    have "\<forall>l. Rmtree l \<notin> set (q @ [Echo (''Run command: '' @ repr_list rt cmd) False DETAIL,
                                          Call cmd (fst (call rt (fs w2) cmd))])"
      using r by simp
    with t show ?thesis by blast
  qed
qed

lemma target_location_events:
  assumes "target_location rt b name in_project w = (x, b1, w1)"
  shows "\<exists>pre. trace w1 = trace w @ pre \<and> \<not> list_ex is_call pre \<and> \<not> list_ex is_rmtree pre"
proof -
  define m where "m = (if in_project \<or> is_dir rt (fs w) (Path rt (config (project b) ''venv.location'')) then []
          else [Mkdir (Path rt (config (project b) ''venv.location'')) :: 'a event])"
  have m: "\<not> list_ex is_call m" "\<not> list_ex is_rmtree m"
    by (simp_all add: m_def)
  from target_location_effect [OF assms] obtain q1 where
    q1: "trace w1 = trace w @ m @ q1" "list_all is_query q1"
    unfolding m_def by blast
  have "\<not> list_ex is_call (m @ q1)" "\<not> list_ex is_rmtree (m @ q1)"
    using m query_events_harmless [OF q1(2)] by simp_all
  with q1(1) show ?thesis by blast
qed

lemma list_ex_set: "\<not> list_ex P xs \<Longrightarrow> x \<in> set xs \<Longrightarrow> \<not> P x"
  by (auto simp: list_ex_iff)

lemma create_call:
  assumes cr: "create rt b name args force in_project w = (r, b', w')"
    and call: "Call cmd rc \<in> set (new_events w w')"
  shows "\<exists>loc b1 w1 w2 pr pre.
      target_location rt b name in_project w = (Inr loc, b1, w1)
    \<and> perform_create rt b1 loc args w2 = (pr, b', w')
    \<and> r = (case pr of Inl e \<Rightarrow> Inl e | Inr u \<Rightarrow> Inr loc)
    \<and> fs w2 = (if exists rt (fs w1) loc then rmtree rt (fs w1) loc else fs w1)
    \<and> new_events w w' = pre @ new_events w2 w'
    \<and> \<not> list_ex is_call pre
    \<and> (\<forall>l. Rmtree l \<in> set (new_events w w') \<longrightarrow> l = loc \<and> exists rt (fs w1) loc)
    \<and> Call cmd rc \<in> set (new_events w2 w')"
proof -
  have quiet: False if "target_location rt b name in_project w = (x, b1, w')" for x b1
  proof -
    from target_location_events [OF that] obtain pre where
      "trace w' = trace w @ pre" "\<not> list_ex is_call pre"
      by blast
    then have "new_events w w' = pre" "\<not> list_ex is_call pre"
      by (simp_all add: new_events_append)
    with call have "\<not> is_call (Call cmd rc :: 'a event)"
      using list_ex_set [of is_call pre "Call cmd rc"] by simp
    then show False by simp
  qed
  from cr show ?thesis
  proof (cases rule: create_cases)
    case (no_location e)
    from quiet [OF no_location(1)] show ?thesis ..
  next
    case (refused loc b1 w1)
    from refused(1) have "target_location rt b name in_project w = (Inr loc, b1, w')"
      unfolding refused(5) .
    from quiet [OF this] show ?thesis ..
  next
    case (cleaned loc b1 w1 pr)
    define c where "c = [Echo (''Cleaning existing target directory '' @ str rt loc) True NORMAL, Rmtree loc]"
    define w2 where "w2 = w1\<lparr>fs := rmtree rt (fs w1) loc, trace := trace w1 @ c\<rparr>"
    have pc: "perform_create rt b1 loc args w2 = (pr, b', w')"
      using cleaned(4) unfolding w2_def c_def .
    have w2: "fs w2 = rmtree rt (fs w1) loc" "trace w2 = trace w1 @ c"
      by (simp_all add: w2_def)
    from target_location_events [OF cleaned(1)] obtain pre where
      pre: "trace w1 = trace w @ pre" "\<not> list_ex is_call pre" "\<not> list_ex is_rmtree pre"
      by blast
    from perform_create_extends [OF pc] obtain post where post: "trace w' = trace w2 @ post" "\<forall>l. Rmtree l \<notin> set post"
      by blast
    have n2: "new_events w2 w' = post"
      using post(1) by (rule new_events_append)
    have "trace w' = trace w @ ((pre @ c) @ post)"
      using post(1) pre(1) w2(2) by simp
    then have n: "new_events w w' = (pre @ c) @ new_events w2 w'"
      unfolding n2 by (rule new_events_append)
    have nc: "\<not> list_ex is_call (pre @ c)"
      using pre(2) by (simp add: c_def)
    have "Call cmd rc \<notin> set (pre @ c)"
      using list_ex_set [OF nc, of "Call cmd rc"] by auto
    with call have cl: "Call cmd rc \<in> set (new_events w2 w')"
      unfolding n by simp
    have rm: "l = loc \<and> exists rt (fs w1) loc" if "Rmtree l \<in> set (new_events w w')" for l
    proof -
      have "Rmtree l \<notin> set pre"
        using list_ex_set [OF pre(3), of "Rmtree l"] by auto
      with that post(2) have "Rmtree l \<in> set c"
        unfolding n n2 by simp
      then show ?thesis using cleaned(2) by (simp add: c_def)
    qed
    have f4: "fs w2 = (if exists rt (fs w1) loc then rmtree rt (fs w1) loc else fs w1)"
      using w2(1) cleaned(2) by simp
    have rm': "\<forall>l. Rmtree l \<in> set (new_events w w') \<longrightarrow> l = loc \<and> exists rt (fs w1) loc"
      using rm by blast
    from cleaned(1) pc cleaned(5) f4 n nc rm' cl show ?thesis by blast
  next
    case (fresh loc b1 w1 pr)
    from target_location_events [OF fresh(1)] obtain pre where
      pre: "trace w1 = trace w @ pre" "\<not> list_ex is_call pre" "\<not> list_ex is_rmtree pre"
      by blast
    from perform_create_extends [OF fresh(3)] obtain post where post: "trace w' = trace w1 @ post" "\<forall>l. Rmtree l \<notin> set post"
      by blast
    have n2: "new_events w1 w' = post"
      using post(1) by (rule new_events_append)
    have "trace w' = trace w @ (pre @ post)"
      using post(1) pre(1) by simp
    then have n: "new_events w w' = pre @ new_events w1 w'"
      unfolding n2 by (rule new_events_append)
    have "Call cmd rc \<notin> set pre"
      using list_ex_set [OF pre(2), of "Call cmd rc"] by auto
    with call have cl: "Call cmd rc \<in> set (new_events w1 w')"
      unfolding n by simp
    have rm: "l = loc \<and> exists rt (fs w1) loc" if "Rmtree l \<in> set (new_events w w')" for l
    proof -
      have "Rmtree l \<notin> set pre"
        using list_ex_set [OF pre(3), of "Rmtree l"] by auto
      with that post(2) show ?thesis
        unfolding n n2 by simp
    qed
    have f4: "fs w1 = (if exists rt (fs w1) loc then rmtree rt (fs w1) loc else fs w1)"
      using fresh(2) by simp
    have rm': "\<forall>l. Rmtree l \<in> set (new_events w w') \<longrightarrow> l = loc \<and> exists rt (fs w1) loc"
      using rm by blast
    from fresh(1) fresh(3) fresh(4) f4 n pre(2) rm' cl show ?thesis by blast
  qed
qed







lemma queries_simps [simp]:
  "queries [] = 0"
  "queries (FindInterpreters h # evs) = Suc (queries evs)"
  "queries (Echo m e v # evs) = queries evs"
  "queries (Mkdir p # evs) = queries evs"
  "queries (Rmtree p # evs) = queries evs"
  "queries (Call cmd rc # evs) = queries evs"
  by (simp_all add: queries_def)

lemma resolved_interpreter_queries:
  assumes "resolved_interpreter b w = (x, b1, w1)"
  shows "(\<exists>evs. trace w1 = trace w @ evs \<and> queries evs = (if needs_query b then 1 else 0))
     \<and> (\<not> isl x \<longrightarrow> \<not> needs_query b1)
     \<and> (\<not> needs_query b \<longrightarrow> \<not> needs_query b1)
     \<and> x = fst (resolved_interpreter b w)"
  using assms
  by (auto simp: resolved_interpreter_def needs_query_def Let_def split: option.splits if_splits list.splits)

lemma ident_cases_result:
  assumes "ident b w = (r, b1, w1)"
  shows "(\<exists>x. resolved_interpreter b w = (x, b1, w1) \<and> isl x = isl r) \<or> (b1 = b \<and> w1 = w)"
  using assms
  by (auto simp: ident_def Backend_ident_def CondaBackend_ident_def
        split: backend_class.splits if_splits prod.splits sum.splits)

lemma ident_queries:
  assumes "ident b w = (r, b1, w1)"
  shows "(\<exists>evs. trace w1 = trace w @ evs \<and> queries evs \<le> (if needs_query b then 1 else 0)
            \<and> (0 < queries evs \<longrightarrow> \<not> needs_query b1 \<or> (isl r \<and> isl (fst (resolved_interpreter b w)))))
     \<and> (\<not> needs_query b \<longrightarrow> \<not> needs_query b1)"
proof -
  from ident_cases_result [OF assms]
  consider x where "resolved_interpreter b w = (x, b1, w1)" "isl x = isl r" | "b1 = b" "w1 = w"
    by blast
  then show ?thesis
  proof cases
    case 1
    from resolved_interpreter_queries [OF 1(1)] obtain evs where
      "trace w1 = trace w @ evs" "queries evs = (if needs_query b then 1 else 0)"
      "\<not> isl x \<longrightarrow> \<not> needs_query b1" "\<not> needs_query b \<longrightarrow> \<not> needs_query b1"
      "x = fst (resolved_interpreter b w)"
      by blast
    with 1(2) show ?thesis
      by (intro conjI exI [of _ evs]) auto
  next
    case 2
    then show ?thesis
      by (intro conjI exI [of _ "[]"]) simp_all
  qed
qed

lemma get_location_cases_result:
  assumes "get_location rt b name w = (r, b1, w1)"
  shows "(\<exists>r'. ident b (if \<not> is_dir rt (fs w) (Path rt (config (project b) ''venv.location''))
                      then w\<lparr>fs := mkdir rt (fs w) (Path rt (config (project b) ''venv.location'')),
                             trace := trace w @ [Mkdir (Path rt (config (project b) ''venv.location''))]\<rparr>
                      else w) = (r', b1, w1) \<and> isl r' = isl r)
         \<or> (b1 = b \<and> w1 = (if \<not> is_dir rt (fs w) (Path rt (config (project b) ''venv.location''))
                      then w\<lparr>fs := mkdir rt (fs w) (Path rt (config (project b) ''venv.location'')),
                             trace := trace w @ [Mkdir (Path rt (config (project b) ''venv.location''))]\<rparr>
                      else w))"
  using assms by (auto simp: get_location_def Let_def split: prod.splits sum.splits if_splits)

lemma target_location_queries:
  assumes "target_location rt b name in_project w = (r, b1, w1)"
  shows "(\<exists>evs. trace w1 = trace w @ evs \<and> queries evs \<le> (if needs_query b then 1 else 0)
            \<and> (0 < queries evs \<longrightarrow> \<not> needs_query b1 \<or> (isl r \<and> isl (fst (resolved_interpreter b w)))))
     \<and> (\<not> needs_query b \<longrightarrow> \<not> needs_query b1)"
proof (cases in_project)
  case True
  with assms have "b1 = b" "w1 = w"
    by (simp_all add: target_location_def)
  then show ?thesis
    by (intro conjI exI [of _ "[]"]) simp_all
next
  case False
  define m where "m = (if is_dir rt (fs w) (Path rt (config (project b) ''venv.location'')) then []
          else [Mkdir (Path rt (config (project b) ''venv.location'')) :: 'a event])"
  define w0 where "w0 = (if \<not> is_dir rt (fs w) (Path rt (config (project b) ''venv.location''))
                      then w\<lparr>fs := mkdir rt (fs w) (Path rt (config (project b) ''venv.location'')),
                             trace := trace w @ [Mkdir (Path rt (config (project b) ''venv.location''))]\<rparr>
                      else w)"
  have w0: "trace w0 = trace w @ m" and m: "queries m = 0"
    by (simp_all add: w0_def m_def)
  from False assms have "get_location rt b name w = (r, b1, w1)"
    by (simp add: target_location_def)
  from get_location_cases_result [OF this, folded w0_def]
  have "(\<exists>r'. ident b w0 = (r', b1, w1) \<and> isl r' = isl r) \<or> (b1 = b \<and> w1 = w0)" .
  then show ?thesis
  proof (elim disjE exE conjE)
    fix r' assume 1: "ident b w0 = (r', b1, w1)" "isl r' = isl r"
    from ident_queries [OF 1(1)] obtain evs where
      e: "trace w1 = trace w0 @ evs" "queries evs \<le> (if needs_query b then 1 else 0)"
      "0 < queries evs \<longrightarrow> \<not> needs_query b1 \<or> (isl r' \<and> isl (fst (resolved_interpreter b w0)))"
      "\<not> needs_query b \<longrightarrow> \<not> needs_query b1"
      by auto
    have t: "trace w1 = trace w @ (m @ evs)"
      using e(1) w0 by simp
    have qe: "queries (m @ evs) = queries evs"
      using m by (simp add: queries_append)
    have q: "queries (m @ evs) \<le> (if needs_query b then 1 else 0)"
      using e(2) unfolding qe .
    have "isl (fst (resolved_interpreter b w0)) = isl (fst (resolved_interpreter b w))"
      using resolved_interpreter_fst [of b w0 w] by simp
    with e(3) 1(2)
    have i: "0 < queries (m @ evs) \<longrightarrow> \<not> needs_query b1 \<or> (isl r \<and> isl (fst (resolved_interpreter b w)))"
      unfolding qe by simp
    show ?thesis
      by (intro conjI exI [of _ "m @ evs"]) (rule t q i e(4))+
  next
    assume 2: "b1 = b" "w1 = w0"
    have f: "trace w1 = trace w @ m" "queries m \<le> (if needs_query b then 1 else 0)"
      "0 < queries m \<longrightarrow> \<not> needs_query b1 \<or> (isl r \<and> isl (fst (resolved_interpreter b w)))"
      "\<not> needs_query b \<longrightarrow> \<not> needs_query b1"
      using 2 w0 m by simp_all
    show ?thesis
      by (intro conjI exI [of _ m]) (rule f)+
  qed
qed

lemma perform_create_queries:
  assumes "perform_create rt b loc args w = (r, b1, w1)"
  shows "(\<exists>evs. trace w1 = trace w @ evs \<and> queries evs \<le> (if needs_query b then 1 else 0)
            \<and> (0 < queries evs \<longrightarrow> \<not> needs_query b1 \<or> isl (fst (resolved_interpreter b w))))
     \<and> (\<not> needs_query b \<longrightarrow> \<not> needs_query b1)
     \<and> fst (resolved_interpreter b1 w') = fst (resolved_interpreter b w')"
proof -
  from perform_create_cases [OF assms] obtain x w0 where
    res: "(b1 = b \<and> w0 = w) \<or> resolved_interpreter b w = (x, b1, w0)" and
    run: "(\<exists>e. r = Inl e \<and> w1 = w0) \<or> (\<exists>cmd. subprocess_call rt cmd w0 = (r, w1))"
    by blast
  have "\<exists>p. trace w1 = trace w0 @ p \<and> queries p = 0"
    using run
  proof
    assume "\<exists>e. r = Inl e \<and> w1 = w0"
    then show ?thesis by (intro exI [of _ "[]"]) simp
  next
    assume "\<exists>cmd. subprocess_call rt cmd w0 = (r, w1)"
    then obtain cmd where "subprocess_call rt cmd w0 = (r, w1)" ..
    from subprocess_call_effect [OF this] show ?thesis
      by (intro exI [of _ "[Echo (''Run command: '' @ repr_list rt cmd) False DETAIL,
                               Call cmd (fst (call rt (fs w0) cmd))]"]) simp
  qed
  then obtain p where p: "trace w1 = trace w0 @ p" "queries p = 0"
    by blast
  from res show ?thesis
  proof
    assume "b1 = b \<and> w0 = w"
    with p show ?thesis
      by (intro conjI exI [of _ p]) simp_all
  next
    assume ri: "resolved_interpreter b w = (x, b1, w0)"
    from resolved_interpreter_queries [OF ri] obtain evs where
      e: "trace w0 = trace w @ evs" "queries evs = (if needs_query b then 1 else 0)"
      "\<not> isl x \<longrightarrow> \<not> needs_query b1" "\<not> needs_query b \<longrightarrow> \<not> needs_query b1"
      "x = fst (resolved_interpreter b w)"
      by blast
    have "trace w1 = trace w @ (evs @ p)"
      using e(1) p(1) by simp
    moreover have "queries (evs @ p) = queries evs"
      using p(2) by (simp add: queries_append)
    moreover have "fst (resolved_interpreter b1 w') = fst (resolved_interpreter b w')"
      using resolved_interpreter_again [OF ri, of w'] e(5) resolved_interpreter_fst [of b w' w] by simp
    ultimately show ?thesis
      using e(2,3,4,5)
      by (intro conjI exI [of _ "evs @ p"]) auto
  qed
qed

lemma queries_compose:
  assumes "trace w1 = trace w @ e1" and "queries e1 \<le> (if nb then 1 else 0)"
    and "0 < queries e1 \<longrightarrow> \<not> nb1" and "\<not> nb \<longrightarrow> \<not> nb1"
    and "trace w2 = trace w1 @ c @ e2" and "queries c = 0"
    and "queries e2 \<le> (if nb1 then 1 else 0)"
    and "0 < queries e2 \<longrightarrow> \<not> nb2 \<or> X" and "\<not> nb1 \<longrightarrow> \<not> nb2"
  shows "(\<exists>evs. trace w2 = trace w @ evs \<and> queries evs \<le> (if nb then 1 else 0)
            \<and> (0 < queries evs \<longrightarrow> \<not> nb2 \<or> X))
         \<and> (\<not> nb \<longrightarrow> \<not> nb2)"
proof -
  have t: "trace w2 = trace w @ (e1 @ c @ e2)"
    using assms(1,5) by simp
  have q: "queries (e1 @ c @ e2) = queries e1 + queries e2"
    using assms(6) by (simp add: queries_append)
  have a: "queries (e1 @ c @ e2) \<le> (if nb then 1 else 0)"
    unfolding q using assms(2,3,4,7) by (auto split: if_splits)
  have b: "0 < queries (e1 @ c @ e2) \<longrightarrow> \<not> nb2 \<or> X"
    unfolding q using assms(3,8,9) by auto
  have c: "\<not> nb \<longrightarrow> \<not> nb2"
    using assms(4,9) by auto
  show ?thesis
    by (intro conjI exI [of _ "e1 @ c @ e2"]) (rule t a b c)+
qed

lemma create_queries:
  assumes cr: "create rt b name args force in_project w = (r, b', w')"
  shows "(\<exists>evs. trace w' = trace w @ evs \<and> queries evs \<le> (if needs_query b then 1 else 0)
            \<and> (0 < queries evs \<longrightarrow> \<not> needs_query b' \<or> isl (fst (resolved_interpreter b w))))
     \<and> (\<not> needs_query b \<longrightarrow> \<not> needs_query b')"
proof -
  have quiet: ?thesis if tl: "target_location rt b name in_project w = (x, b', w')" for x
  proof -
    from target_location_queries [OF tl] obtain evs where
      e: "trace w' = trace w @ evs" "queries evs \<le> (if needs_query b then 1 else 0)"
        "0 < queries evs \<longrightarrow> \<not> needs_query b' \<or> (isl x \<and> isl (fst (resolved_interpreter b w)))"
        "\<not> needs_query b \<longrightarrow> \<not> needs_query b'"
      by auto
    from e(3) have "0 < queries evs \<longrightarrow> \<not> needs_query b' \<or> isl (fst (resolved_interpreter b w))"
      by auto
    with e(1,2,4) show ?thesis
      by (intro conjI exI [of _ evs]) assumption+
  qed
  have hook: ?thesis
    if tl: "target_location rt b name in_project w = (Inr loc, b1, w1)"
      and w2: "trace w2 = trace w1 @ c" "queries c = 0"
      and pc: "perform_create rt b1 loc args w2 = (pr, b', w')"
    for loc b1 w1 w2 c pr
  proof -
    from target_location_queries [OF tl] obtain e1 where
      e1: "trace w1 = trace w @ e1" "queries e1 \<le> (if needs_query b then 1 else 0)"
        "0 < queries e1 \<longrightarrow> \<not> needs_query b1"
        "\<not> needs_query b \<longrightarrow> \<not> needs_query b1"
      by auto
    from perform_create_queries [OF pc, of w2] obtain e2 where
      e2: "trace w' = trace w2 @ e2" "queries e2 \<le> (if needs_query b1 then 1 else 0)"
        "0 < queries e2 \<longrightarrow> \<not> needs_query b' \<or> isl (fst (resolved_interpreter b1 w2))"
        "\<not> needs_query b1 \<longrightarrow> \<not> needs_query b'"
      by auto
    have "fst (resolved_interpreter b1 w2) = fst (resolved_interpreter b w)"
      using target_location_resolution [OF tl, of w2] resolved_interpreter_fst [of b w2 w] by simp
    with e2(3) have e23: "0 < queries e2 \<longrightarrow> \<not> needs_query b' \<or> isl (fst (resolved_interpreter b w))"
      by simp
    have t: "trace w' = trace w1 @ c @ e2"
      using e2(1) w2(1) by simp
    from queries_compose [OF e1(1) e1(2) e1(3) e1(4) t w2(2) e2(2) e23 e2(4)] show ?thesis .
  qed
  from cr show ?thesis
  proof (cases rule: create_cases)
    case (no_location e)
    from quiet [OF no_location(1)] show ?thesis .
  next
    case (refused loc b1 w1)
    from refused(1) have "target_location rt b name in_project w = (Inr loc, b', w')"
      unfolding refused(4,5) .
    from quiet [OF this] show ?thesis .
  next
    case (cleaned loc b1 w1 pr)
    show ?thesis
      by (rule hook [OF cleaned(1) _ _ cleaned(4),
            of "[Echo (''Cleaning existing target directory '' @ str rt loc) True NORMAL, Rmtree loc]"])
        (simp_all add: queries_def)
  next
    case (fresh loc b1 w1 pr)
    show ?thesis
      by (rule hook [OF fresh(1) _ _ fresh(3), of "[]"]) (simp_all add: queries_def)
  qed
qed

lemma perform_create_resolution:
  assumes "perform_create rt b loc args w = (r, b1, w1)"
  shows "fst (resolved_interpreter b1 w') = fst (resolved_interpreter b w')"
  using perform_create_queries [OF assms, of w'] by simp

lemma create_resolution:
  assumes cr: "create rt b name args force in_project w = (r, b', w')"
  shows "fst (resolved_interpreter b' w'') = fst (resolved_interpreter b w'')"
  using cr
proof (cases rule: create_cases)
  case (no_location e)
  from target_location_resolution [OF no_location(1)] show ?thesis .
next
  case (refused loc b1 w1)
  from target_location_resolution [OF refused(1), of w''] refused(4) show ?thesis by simp
next
  case (cleaned loc b1 w1 pr)
  from target_location_resolution [OF cleaned(1), of w''] perform_create_resolution [OF cleaned(4), of w'']
  show ?thesis by simp
next
  case (fresh loc b1 w1 pr)
  from target_location_resolution [OF fresh(1), of w''] perform_create_resolution [OF fresh(3), of w'']
  show ?thesis by simp
qed

lemma access_step_queries:
  assumes "access_step rt a (b, w) = (b1, w1)"
  shows "(\<exists>evs. trace w1 = trace w @ evs \<and> queries evs \<le> (if needs_query b then 1 else 0)
            \<and> (0 < queries evs \<longrightarrow> \<not> needs_query b1 \<or> isl (fst (resolved_interpreter b w))))
     \<and> (\<not> needs_query b \<longrightarrow> \<not> needs_query b1)
     \<and> fst (resolved_interpreter b1 w) = fst (resolved_interpreter b w)"
proof (cases a)
  case Ident
  with assms obtain r where i: "ident b w = (r, b1, w1)"
    by (cases "ident b w") simp
  from ident_queries [OF i] obtain evs where
    e: "trace w1 = trace w @ evs" "queries evs \<le> (if needs_query b then 1 else 0)"
      "0 < queries evs \<longrightarrow> \<not> needs_query b1 \<or> (isl r \<and> isl (fst (resolved_interpreter b w)))"
      "\<not> needs_query b \<longrightarrow> \<not> needs_query b1"
    by auto
  from e(3) have e3: "0 < queries evs \<longrightarrow> \<not> needs_query b1 \<or> isl (fst (resolved_interpreter b w))"
    by auto
  note r = ident_resolution [OF i, of w]
  show ?thesis
    by (intro conjI exI [of _ evs]) (rule e(1) e(2) e3 e(4) r)+
next
  case (Create name args force in_project)
  with assms obtain r where c: "create rt b name args force in_project w = (r, b1, w1)"
    by (cases "create rt b name args force in_project w") simp
  from create_queries [OF c] create_resolution [OF c, of w] show ?thesis by simp
qed

lemma run_accesses_queries:
  assumes "run_accesses rt accs (b, w) = (b', w')"
  shows "\<exists>evs. trace w' = trace w @ evs \<and> queries evs \<le> length accs
          \<and> (\<not> isl (fst (resolved_interpreter b w)) \<longrightarrow> queries evs \<le> 1)
          \<and> (\<not> needs_query b \<longrightarrow> queries evs = 0)"
  using assms
proof (induction accs arbitrary: b w)
  case Nil
  then show ?case
    by (intro exI [of _ "[]"]) simp
next
  case (Cons a accs)
  obtain b1 w1 where s: "access_step rt a (b, w) = (b1, w1)"
    by (cases "access_step rt a (b, w)") simp
  from access_step_queries [OF s] obtain e1 where
    e1: "trace w1 = trace w @ e1" "queries e1 \<le> (if needs_query b then 1 else 0)"
      "0 < queries e1 \<longrightarrow> \<not> needs_query b1 \<or> isl (fst (resolved_interpreter b w))"
      "\<not> needs_query b \<longrightarrow> \<not> needs_query b1"
      "fst (resolved_interpreter b1 w) = fst (resolved_interpreter b w)"
    by auto
  from Cons.prems s have "run_accesses rt accs (b1, w1) = (b', w')"
    by simp
  from Cons.IH [OF this] obtain e2 where
    e2: "trace w' = trace w1 @ e2" "queries e2 \<le> length accs"
      "\<not> isl (fst (resolved_interpreter b1 w1)) \<longrightarrow> queries e2 \<le> 1"
      "\<not> needs_query b1 \<longrightarrow> queries e2 = 0"
    by auto
  have same: "fst (resolved_interpreter b1 w1) = fst (resolved_interpreter b w)"
    using e1(5) resolved_interpreter_fst [of b1 w1 w] by simp
  have t: "trace w' = trace w @ (e1 @ e2)"
    using e1(1) e2(1) by simp
  have q: "queries (e1 @ e2) = queries e1 + queries e2"
    by (rule queries_append)
  have a: "queries (e1 @ e2) \<le> length (a # accs)"
    unfolding q using e1(2) e2(2) by (auto split: if_splits)
  have b: "\<not> isl (fst (resolved_interpreter b w)) \<longrightarrow> queries (e1 @ e2) \<le> 1"
    unfolding q using e1(2,3) e2(3,4) same by (auto split: if_splits)
  have c: "\<not> needs_query b \<longrightarrow> queries (e1 @ e2) = 0"
    unfolding q using e1(2,4) e2(4) by (auto split: if_splits)
  show ?case
    by (intro conjI exI [of _ "e1 @ e2"]) (rule t a b c)+
qed

section \<open>The claims\<close>

text \<open>
  C1. For every backend, when the location that \<^verbatim>\<open>create\<close> computes exists in the
  filesystem in which \<^verbatim>\<open>create\<close> tests it, \<^verbatim>\<open>create\<close> with \<open>force = False\<close> fails with
  the error whose message says that the location is not empty, and ends in exactly the
  world in which the location was tested: nothing is deleted, no process is called. That
  filesystem is the one \<^verbatim>\<open>create\<close> was called in, except that the configured parent was
  made a directory when the location is not the in-project one and the parent was not a
  directory.
\<close>

theorem create_refuses_existing_location:
  assumes "target_location rt b name in_project w = (Inr loc, b1, w1)"
    and "exists rt (fs w1) loc"
  shows "create rt b name args False in_project w =
           (Inl (VirtualenvCreateError (Message (''The location '' @ str rt loc @ '' is not empty''))), b1, w1)
         \<and> fs w1 = (if in_project \<or> is_dir rt (fs w) (Path rt (config (project b) ''venv.location''))
                    then fs w else mkdir rt (fs w) (Path rt (config (project b) ''venv.location'')))
         \<and> trace w1 = trace w @ new_events w w1
         \<and> \<not> list_ex is_rmtree (new_events w w1) \<and> \<not> list_ex is_call (new_events w w1)"
proof -
  let ?m = "if in_project \<or> is_dir rt (fs w) (Path rt (config (project b) ''venv.location'')) then []
             else [Mkdir (Path rt (config (project b) ''venv.location''))]"
  have 1: "create rt b name args False in_project w =
           (Inl (VirtualenvCreateError (Message (''The location '' @ str rt loc @ '' is not empty''))), b1, w1)"
    using assms by (simp add: create_def ensure_clean_def)
  obtain evs where evs: "trace w1 = trace w @ ?m @ evs" "list_all is_query evs"
    using target_location_effect [OF assms(1)] by blast
  have 2: "new_events w w1 = ?m @ evs"
    using evs(1) by (rule new_events_append)
  show ?thesis
    using 1 2 query_events_harmless [OF evs(2)] evs(1) target_location_effect [OF assms(1)] by simp
qed

theorem create_refuses_existing_location_witness:
  "create (demo_rt 0) (demo_backend VenvBackend (Some ''3.9'')) None [] False False
     (demo_world [''/envs'', ''/envs/proj-cpython-3.9'', ''/envs/proj-cpython-3.9/bin''])
   = (Inl (VirtualenvCreateError (Message ''The location /envs/proj-cpython-3.9 is not empty'')),
      (demo_backend VenvBackend (Some ''3.9''))\<lparr>cached_interpreter := Some py39\<rparr>,
      \<lparr>fs = [''/envs'', ''/envs/proj-cpython-3.9'', ''/envs/proj-cpython-3.9/bin''],
       trace = [FindInterpreters ''3.9'']\<rparr>)"
proof -
  let ?w = "demo_world [''/envs'', ''/envs/proj-cpython-3.9'', ''/envs/proj-cpython-3.9/bin'']"
  let ?w1 = "\<lparr>fs = [''/envs'', ''/envs/proj-cpython-3.9'', ''/envs/proj-cpython-3.9/bin''],
              trace = [FindInterpreters ''3.9'' :: string event]\<rparr>"
  have tl: "target_location (demo_rt 0) (demo_backend VenvBackend (Some ''3.9'')) None False ?w
        = (Inr ''/envs/proj-cpython-3.9'',
           (demo_backend VenvBackend (Some ''3.9''))\<lparr>cached_interpreter := Some py39\<rparr>, ?w1)"
    by (simp add: target_location_def get_location_def ident_def Backend_ident_def
        resolved_interpreter_def truthy_def Let_def demo_defs)
  have ex: "exists (demo_rt 0) (fs ?w1) ''/envs/proj-cpython-3.9''"
    by (simp add: demo_defs)
  from create_refuses_existing_location [OF tl ex, of "[]"] show ?thesis
    by (simp add: demo_defs)
qed






text \<open>
  C4, as amended. Across any sequence of accesses to \<^verbatim>\<open>ident\<close> and \<^verbatim>\<open>create\<close> on one
  instance, the resolver is queried at most once per access; at most once in all when the
  interpreter of the instance can be resolved; and never when a descriptor is already
  stored or the hint is absent or empty. A resolution that finds no interpreter stores
  nothing, so the next access queries again.
\<close>

theorem resolver_queries_memoized:
  "queries (new_events w (snd (run_accesses rt accs (b, w)))) \<le> length accs
   \<and> (\<forall>i. fst (resolved_interpreter b w) = Inr i \<longrightarrow>
         queries (new_events w (snd (run_accesses rt accs (b, w)))) \<le> 1)
   \<and> (cached_interpreter b \<noteq> None \<or> \<not> truthy (python b) \<longrightarrow>
         queries (new_events w (snd (run_accesses rt accs (b, w)))) = 0)"
proof -
  obtain b' w' where r: "run_accesses rt accs (b, w) = (b', w')"
    by (cases "run_accesses rt accs (b, w)") simp
  from run_accesses_queries [OF r] obtain evs where
    e: "trace w' = trace w @ evs" "queries evs \<le> length accs"
      "\<not> isl (fst (resolved_interpreter b w)) \<longrightarrow> queries evs \<le> 1"
      "\<not> needs_query b \<longrightarrow> queries evs = 0"
    by auto
  have n: "new_events w (snd (run_accesses rt accs (b, w))) = evs"
    using new_events_append [OF e(1)] r by simp
  show ?thesis
    unfolding n using e(2,3,4) by (auto simp: needs_query_def)
qed

theorem resolver_queries_memoized_witness:
  "fst (resolved_interpreter (demo_backend VenvBackend (Some ''3.9'')) (demo_world [''/envs''])) = Inr py39
   \<and> queries (new_events (demo_world [''/envs''])
      (snd (run_accesses (demo_rt 0) [Ident, Create None [] False False, Ident]
              (demo_backend VenvBackend (Some ''3.9''), demo_world [''/envs''])))) \<le> 1"
proof -
  have r: "fst (resolved_interpreter (demo_backend VenvBackend (Some ''3.9'')) (demo_world [''/envs''])) = Inr py39"
    by (simp add: run_defs demo_defs)
  from resolver_queries_memoized [of "demo_world [''/envs'']" "demo_rt 0" "[Ident, Create None [] False False, Ident]"
        "demo_backend VenvBackend (Some ''3.9'')"] r
  show ?thesis by simp
qed

theorem resolver_queried_again_after_failure_counterexample:
  "queries (new_events (demo_world [])
      (snd (run_accesses (demo_rt 0) [Ident, Ident]
              (demo_backend VirtualenvBackend (Some ''9.9''), demo_world [])))) = 2"
  by (simp add: run_defs demo_defs queries_def)

text \<open>
  C5. For every backend, when a run of \<^verbatim>\<open>create\<close> calls the creation command and the
  command ends with a non-zero exit status, \<^verbatim>\<open>create\<close> fails with
  \<^verbatim>\<open>VirtualenvCreateError\<close> wrapping the \<^verbatim>\<open>CalledProcessError\<close> of that command and status,
  and the call is the last event of the run: nothing is restored afterwards. When the run
  removed an existing location first, the final filesystem is the one the failed command
  left of the filesystem from which the location had been removed.
\<close>

theorem create_failed_command:
  assumes cr: "create rt b name args force in_project w = (r, b', w')"
    and call: "Call cmd rc \<in> set (new_events w w')" and rc: "rc \<noteq> 0"
  shows "r = Inl (VirtualenvCreateError (Wrapped (CalledProcessError rc cmd)))
     \<and> (\<exists>pre. new_events w w' = pre @ [Call cmd rc] \<and> \<not> list_ex is_call pre)
     \<and> (\<forall>loc. Rmtree loc \<in> set (new_events w w') \<longrightarrow>
          exists rt (if in_project \<or> is_dir rt (fs w) (Path rt (config (project b) ''venv.location''))
                     then fs w else mkdir rt (fs w) (Path rt (config (project b) ''venv.location''))) loc
          \<and> fs w' = snd (call rt (rmtree rt
                     (if in_project \<or> is_dir rt (fs w) (Path rt (config (project b) ''venv.location''))
                      then fs w else mkdir rt (fs w) (Path rt (config (project b) ''venv.location''))) loc) cmd))"
proof -
  from create_call [OF cr call] obtain loc b1 w1 w2 pr pre where
    tl: "target_location rt b name in_project w = (Inr loc, b1, w1)"
    and pc: "perform_create rt b1 loc args w2 = (pr, b', w')"
    and r: "r = (case pr of Inl e \<Rightarrow> Inl e | Inr u \<Rightarrow> Inr loc)"
    and f: "fs w2 = (if exists rt (fs w1) loc then rmtree rt (fs w1) loc else fs w1)"
    and n: "new_events w w' = pre @ new_events w2 w'"
    and pre: "\<not> list_ex is_call pre"
    and rm: "\<forall>l. Rmtree l \<in> set (new_events w w') \<longrightarrow> l = loc \<and> exists rt (fs w1) loc"
    and c: "Call cmd rc \<in> set (new_events w2 w')"
    by blast
  from perform_create_call [OF pc c] rc obtain q where
    q: "new_events w2 w' = q @ [Echo (''Run command: '' @ repr_list rt cmd) False DETAIL, Call cmd rc]"
      "list_all is_query q"
    and f': "fs w' = snd (call rt (fs w2) cmd)"
    and p: "pr = Inl (VirtualenvCreateError (Wrapped (CalledProcessError rc cmd)))"
    by auto
  have 1: "r = Inl (VirtualenvCreateError (Wrapped (CalledProcessError rc cmd)))"
    using r p by simp
  have "new_events w w' = (pre @ q @ [Echo (''Run command: '' @ repr_list rt cmd) False DETAIL]) @ [Call cmd rc]"
    using n q(1) by simp
  moreover have "\<not> list_ex is_call (pre @ q @ [Echo (''Run command: '' @ repr_list rt cmd) False DETAIL])"
    using pre query_events_harmless [OF q(2)] by simp
  ultimately have 2: "\<exists>pre. new_events w w' = pre @ [Call cmd rc] \<and> \<not> list_ex is_call pre"
    by blast
  have fs1: "fs w1 = (if in_project \<or> is_dir rt (fs w) (Path rt (config (project b) ''venv.location''))
                     then fs w else mkdir rt (fs w) (Path rt (config (project b) ''venv.location'')))"
    using target_location_effect [OF tl] by simp
  have 3: "\<forall>l. Rmtree l \<in> set (new_events w w') \<longrightarrow>
          exists rt (fs w1) l \<and> fs w' = snd (call rt (rmtree rt (fs w1) l) cmd)"
  proof (intro allI impI)
    fix l assume "Rmtree l \<in> set (new_events w w')"
    with rm have "l = loc" "exists rt (fs w1) loc" by blast+
    with f f' show "exists rt (fs w1) l \<and> fs w' = snd (call rt (rmtree rt (fs w1) l) cmd)"
      by simp
  qed
  from 1 2 3 [unfolded fs1] show ?thesis by blast
qed

theorem create_failed_command_witness:
  "fst (create (demo_rt 1) (demo_backend VenvBackend (Some ''3.9'')) None [] True False
     (demo_world [''/envs'', ''/envs/proj-cpython-3.9'', ''/envs/proj-cpython-3.9/bin'']))
   = Inl (VirtualenvCreateError (Wrapped (CalledProcessError 1
            [''/usr/bin/python3.9'', ''-m'', ''venv'', ''/envs/proj-cpython-3.9''])))
   \<and> fs (snd (snd (create (demo_rt 1) (demo_backend VenvBackend (Some ''3.9'')) None [] True False
     (demo_world [''/envs'', ''/envs/proj-cpython-3.9'', ''/envs/proj-cpython-3.9/bin''])))) = [''/envs'']"
proof -
  let ?w = "demo_world [''/envs'', ''/envs/proj-cpython-3.9'', ''/envs/proj-cpython-3.9/bin'']"
  let ?cmd = "[''/usr/bin/python3.9'', ''-m'', ''venv'', ''/envs/proj-cpython-3.9'']"
  let ?r = "create (demo_rt 1) (demo_backend VenvBackend (Some ''3.9'')) None [] True False ?w"
  have cr: "?r = (fst ?r, fst (snd ?r), snd (snd ?r))"
    by simp
  have call: "Call ?cmd 1 \<in> set (new_events ?w (snd (snd ?r)))"
    by (simp add: run_defs demo_defs)
  have rm: "Rmtree ''/envs/proj-cpython-3.9'' \<in> set (new_events ?w (snd (snd ?r)))"
    by (simp add: run_defs demo_defs)
  have rc: "(1::int) \<noteq> 0"
    by simp
  from create_failed_command [OF cr call rc] rm show ?thesis
    by (simp add: demo_defs startswith_def)
qed

text \<open>
  C6, as amended. For the class \<^verbatim>\<open>CondaBackend\<close>, a hint that is not the empty string is
  the \<^verbatim>\<open>ident\<close>, exactly, and reading it changes neither the instance nor the world: the
  resolver is not queried. With no hint, or with the empty string as hint, \<^verbatim>\<open>ident\<close> is
  the identifier of the resolved descriptor, and the resolver is not queried either.
\<close>

theorem conda_ident:
  assumes "cls b = CondaBackend"
  shows "(\<forall>h. python b = Some h \<and> h \<noteq> [] \<longrightarrow> ident b w = (Inr h, b, w))
     \<and> (\<not> truthy (python b) \<longrightarrow>
          (\<exists>i. fst (resolved_interpreter b w) = Inr i \<and> fst (ident b w) = Inr (identifier i))
          \<and> snd (snd (ident b w)) = w)"
  using assms
  by (auto simp: ident_def CondaBackend_ident_def Backend_ident_def resolved_interpreter_def truthy_def
      split: option.splits)

theorem conda_ident_witness:
  "ident (demo_backend CondaBackend (Some ''3.11'')) (demo_world [])
     = (Inr ''3.11'', demo_backend CondaBackend (Some ''3.11''), demo_world [])
   \<and> fst (ident (demo_backend CondaBackend None) (demo_world [])) = Inr ''cpython-3.9''
   \<and> snd (snd (ident (demo_backend CondaBackend None) (demo_world []))) = demo_world []"
proof -
  have cls: "cls (demo_backend CondaBackend h) = CondaBackend" for h
    by (simp add: demo_defs)
  have h: "python (demo_backend CondaBackend (Some ''3.11'')) = Some ''3.11'' \<and> ''3.11'' \<noteq> []"
    by (simp add: demo_defs)
  have n: "\<not> truthy (python (demo_backend CondaBackend None))"
    by (simp add: demo_defs truthy_def)
  from conda_ident [OF cls, of "Some ''3.11''" "demo_world []"] h
  have 1: "ident (demo_backend CondaBackend (Some ''3.11'')) (demo_world [])
     = (Inr ''3.11'', demo_backend CondaBackend (Some ''3.11''), demo_world [])"
    by simp
  from conda_ident [OF cls, of None "demo_world []"] n
  have 2: "fst (ident (demo_backend CondaBackend None) (demo_world [])) = Inr ''cpython-3.9''
     \<and> snd (snd (ident (demo_backend CondaBackend None) (demo_world []))) = demo_world []"
    by (simp add: run_defs demo_defs)
  from 1 2 show ?thesis by simp
qed

theorem conda_ident_empty_hint_counterexample:
  "fst (ident (demo_backend CondaBackend (Some [])) (demo_world [])) = Inr ''cpython-3.9''
   \<and> fst (ident (demo_backend CondaBackend (Some [])) (demo_world [])) \<noteq> Inr []"
  by (simp add: run_defs demo_defs)








text \<open>
  C10. For every backend, \<^verbatim>\<open>create\<close> with the empty string as name is \<^verbatim>\<open>create\<close> with
  no name: result, instance and world are the same, so the location is named by
  \<^verbatim>\<open>ident\<close>.
\<close>

theorem create_empty_name: "create rt b (Some []) args force in_project w = create rt b None args force in_project w"
  by (simp add: create_def target_location_def get_location_def truthy_def)

theorem create_empty_name_witness:
  "create (demo_rt 0) (demo_backend VenvBackend None) (Some []) [] False False (demo_world [''/envs''])
   = (Inr ''/envs/proj-cpython-3.9'',
      (demo_backend VenvBackend None)\<lparr>cached_interpreter := Some py39\<rparr>,
      \<lparr>fs = [''/envs''],
       trace = [Echo ''Run command:  /usr/bin/python3.9 -m venv /envs/proj-cpython-3.9'' False DETAIL,
                Call [''/usr/bin/python3.9'', ''-m'', ''venv'', ''/envs/proj-cpython-3.9''] 0]\<rparr>)"
  unfolding create_empty_name
  by (simp add: run_defs demo_defs)

end
